theory Spec2Isabelle
  imports Main "HOL-Library.AList"
begin

section \<open>JavaScript values, errors and the mutable world\<close>

text \<open>
  The backup code of Memex (\<^verbatim>\<open>src/backup/background/backend/utils.ts\<close> and the
  \<^verbatim>\<open>SimpleHttpBackend\<close> class) is written in TypeScript. Its values are modelled by
  one datatype; an object literal is an association list, so that the insertion order
  that \<^verbatim>\<open>Object.entries\<close> follows is kept.
\<close>

datatype jsval =
    JUndefined
  | JNull
  | JBool bool
  | JNum int
  | JStr string
  | JBlob string
  | JArr "jsval list"
  | JObj "(string \<times> jsval) list"

text \<open>A thrown value or a rejected promise: \<^verbatim>\<open>new Error(message)\<close>.\<close>

datatype js_error = Error (message: string)

type_synonym props = "(string \<times> jsval) list"

text \<open>\<^verbatim>\<open>obj.k\<close>: a missing property reads as \<^verbatim>\<open>undefined\<close>.\<close>

definition get_prop :: "props \<Rightarrow> string \<Rightarrow> jsval" where
  "get_prop obj k = (case map_of obj k of None \<Rightarrow> JUndefined | Some v \<Rightarrow> v)"

text \<open>\<^verbatim>\<open>obj.k = v\<close>: an existing property keeps its place, a new one goes last.\<close>

definition set_prop :: "props \<Rightarrow> string \<Rightarrow> jsval \<Rightarrow> props" where
  "set_prop obj k v = AList.update k v obj"

text \<open>\<^verbatim>\<open>v != null\<close> (loose inequality): false exactly for \<^verbatim>\<open>null\<close> and \<^verbatim>\<open>undefined\<close>.\<close>

fun non_null :: "jsval \<Rightarrow> bool" where
  "non_null JUndefined = False"
| "non_null JNull = False"
| "non_null _ = True"

text \<open>\<^verbatim>\<open>Object.entries(obj)\<close>: the own properties, in insertion order.\<close>

definition Object_entries :: "props \<Rightarrow> (string \<times> jsval) list" where
  "Object_entries obj = obj"

subsection \<open>Change records and extracted images\<close>

text \<open>
  The structured payload \<^verbatim>\<open>change.object\<close> is an object that the classifier mutates in
  place, so a change record holds a reference into a store of payloads (or \<open>None\<close> for
  \<^verbatim>\<open>null\<close>), and two records may share one payload.
\<close>

type_synonym ref = nat

datatype change_type = Create | Update | Delete

text \<open>
  Modelled from the spec: the declaration of \<^verbatim>\<open>ObjectChange\<close> (\<^verbatim>\<open>backend/types.ts\<close>) is
  not among the sources; the fields are those of the spec's ChangeRecord, of which the
  code reads \<^verbatim>\<open>collection\<close>, \<^verbatim>\<open>objectPk\<close> and \<^verbatim>\<open>object\<close>.
\<close>

record ObjectChange =
  collection :: string
  objectPk :: string
  object :: "ref option"
  changeType :: change_type

text \<open>The object pushed onto \<^verbatim>\<open>images\<close> by \<^verbatim>\<open>separateDataFromImageChanges\<close>.\<close>

record ExtractedImage =
  img_collection :: string
  img_pk :: string
  img_type :: string
  img_data :: jsval

subsection \<open>Requests, responses and the world\<close>

record request =
  req_method :: string
  req_url :: string
  req_body :: "string option"

text \<open>
  A \<^verbatim>\<open>Response\<close> of the Fetch API: its status and what \<^verbatim>\<open>response.text()\<close> resolves
  to (or rejects with). \<^verbatim>\<open>response.ok\<close> is true exactly for the statuses 200 to 299.
\<close>

record response =
  resp_status :: int
  resp_text :: "js_error + string"

definition resp_ok :: "response \<Rightarrow> bool" where
  "resp_ok r = (200 \<le> resp_status r \<and> resp_status r \<le> 299)"

text \<open>
  Everything the code can change or observe: the payload store, the errors handed to
  \<^verbatim>\<open>Raven.captureException\<close>, the requests issued through \<^verbatim>\<open>fetch\<close> (in order), and the
  clock that \<^verbatim>\<open>Date.now()\<close> reads.
\<close>

record world =
  heap :: "ref \<Rightarrow> props"
  reported :: "js_error list"
  requests :: "request list"
  now :: int

text \<open>
  The collaborators that are not part of the repository's sources, taken as parameters:
  the blob encoder (\<^verbatim>\<open>src/util/encode-blob\<close>, which may throw), \<^verbatim>\<open>JSON.stringify\<close> with its
  indentation, \<^verbatim>\<open>encodeURIComponent\<close>, and the remote server, which answers a request
  (given the requests seen before it) with a response, or makes \<^verbatim>\<open>fetch\<close> reject.
\<close>

record env =
  encodeBlob :: "jsval \<Rightarrow> js_error + jsval"
  JSON_stringify :: "jsval \<Rightarrow> nat \<Rightarrow> string"
  encodeURIComponent :: "string \<Rightarrow> string"
  remote :: "request list \<Rightarrow> request \<Rightarrow> js_error + response"

definition captureException :: "js_error \<Rightarrow> world \<Rightarrow> world" where
  "captureException e w = w\<lparr>reported := reported w @ [e]\<rparr>"

text \<open>\<^verbatim>\<open>change.object.k = v\<close> for the payload at reference \<open>r\<close>.\<close>

definition write_prop :: "ref \<Rightarrow> string \<Rightarrow> jsval \<Rightarrow> world \<Rightarrow> world" where
  "write_prop r k v w = w\<lparr>heap := (heap w)(r := set_prop (heap w r) k v)\<rparr>"

text \<open>\<^verbatim>\<open>fetch(url, options)\<close>: the request is issued, then the promise settles.\<close>

definition fetch :: "env \<Rightarrow> request \<Rightarrow> world \<Rightarrow> (js_error + response) \<times> world" where
  "fetch env req w = (remote env (requests w) req, w\<lparr>requests := requests w @ [req]\<rparr>)"

section \<open>The change classifier (utils.ts)\<close>

text \<open>The first \<^verbatim>\<open>if\<close> block of \<^verbatim>\<open>_prepareBackupChangeForStorage\<close>: screenshots of pages.\<close>

definition screenshot_rule :: "env \<Rightarrow> ObjectChange \<Rightarrow> props \<Rightarrow> world \<Rightarrow> props \<times> world" where
  "screenshot_rule env change images w =
     (if collection change = ''pages'' then
        (case object change of
           None \<Rightarrow> (images, w)
         | Some r \<Rightarrow>
             if non_null (get_prop (heap w r) ''screenshot'') then
               (case encodeBlob env (get_prop (heap w r) ''screenshot'') of
                  Inr encoded \<Rightarrow>
                    (set_prop images ''screenshot'' encoded,
                     write_prop r ''screenshot'' JUndefined w)
                | Inl e \<Rightarrow>
                    (images,
                     write_prop r ''screenshot'' JUndefined (captureException e w)))
             else (images, w))
      else (images, w))"

text \<open>The second \<^verbatim>\<open>if\<close> block: favicons are encoded in place.\<close>

definition favIcon_rule :: "env \<Rightarrow> ObjectChange \<Rightarrow> world \<Rightarrow> world" where
  "favIcon_rule env change w =
     (if collection change = ''favIcons'' then
        (case object change of
           None \<Rightarrow> w
         | Some r \<Rightarrow>
             if non_null (get_prop (heap w r) ''favIcon'') then
               (case encodeBlob env (get_prop (heap w r) ''favIcon'') of
                  Inr encoded \<Rightarrow> write_prop r ''favIcon'' encoded w
                | Inl e \<Rightarrow> captureException e w)
             else w)
      else w)"

definition prepareBackupChangeForStorage ::
    "env \<Rightarrow> ObjectChange \<Rightarrow> world \<Rightarrow> props \<times> world" where
  "prepareBackupChangeForStorage env change w =
     (case screenshot_rule env change [] w of
        (images, w') \<Rightarrow> (images, favIcon_rule env change w'))"

text \<open>The images pushed for one change: one per entry of what the preparation returned.\<close>

definition pushed_images :: "ObjectChange \<Rightarrow> props \<Rightarrow> ExtractedImage list" where
  "pushed_images change changeImages =
     map (\<lambda>(imageType, imageData).
            \<lparr>img_collection = collection change, img_pk = objectPk change,
             img_type = imageType, img_data = imageData\<rparr>)
         (Object_entries changeImages)"

text \<open>The \<^verbatim>\<open>for (const change of changes)\<close> loop, with the \<^verbatim>\<open>images\<close> array it fills.\<close>

fun classify_loop ::
    "env \<Rightarrow> ObjectChange list \<Rightarrow> ExtractedImage list \<Rightarrow> world \<Rightarrow> ExtractedImage list \<times> world" where
  "classify_loop env [] images w = (images, w)"
| "classify_loop env (change # rest) images w =
     (case prepareBackupChangeForStorage env change w of
        (changeImages, w') \<Rightarrow>
          classify_loop env rest (images @ pushed_images change changeImages) w')"

definition separateDataFromImageChanges ::
    "env \<Rightarrow> ObjectChange list \<Rightarrow> world \<Rightarrow> (ObjectChange list \<times> ExtractedImage list) \<times> world" where
  "separateDataFromImageChanges env changes w =
     (case classify_loop env changes [] w of (images, w') \<Rightarrow> ((changes, images), w'))"

definition shouldWriteImages :: "ExtractedImage list \<Rightarrow> bool \<Rightarrow> bool" where
  "shouldWriteImages images storeBlobs = (storeBlobs \<and> length images \<noteq> 0)"

section \<open>The HTTP backend (class SimpleHttpBackend)\<close>

record SimpleHttpBackend =
  url :: string

text \<open>
  Modelled from the spec: the declaration of \<^verbatim>\<open>BackupObject\<close> (\<^verbatim>\<open>backend/types.ts\<close>) is
  not among the sources; it is a collection, a primary key and the object to store.
\<close>

record BackupObject =
  bo_collection :: string
  bo_pk :: string
  bo_object :: jsval

text \<open>\<^verbatim>\<open>_writeToPath(url, body)\<close>: one awaited PUT; the response is not looked at.\<close>

definition writeToPath ::
    "env \<Rightarrow> SimpleHttpBackend \<Rightarrow> string \<Rightarrow> string \<Rightarrow> world \<Rightarrow> (js_error + unit) \<times> world" where
  "writeToPath env this path body w =
     (case fetch env \<lparr>req_method = ''PUT'', req_url = url this @ ''/'' @ path,
                      req_body = Some body\<rparr> w of
        (Inl e, w') \<Rightarrow> (Inl e, w')
      | (Inr response, w') \<Rightarrow> (Inr (), w'))"

definition storeObject ::
    "env \<Rightarrow> SimpleHttpBackend \<Rightarrow> BackupObject \<Rightarrow> world \<Rightarrow> (js_error + unit) \<times> world" where
  "storeObject env this backupObject w =
     writeToPath env this
       (bo_collection backupObject @ ''/'' @
          encodeURIComponent env (encodeURIComponent env (bo_pk backupObject)))
       (JSON_stringify env (bo_object backupObject) 0)
       w"

definition deleteObject ::
    "env \<Rightarrow> SimpleHttpBackend \<Rightarrow> BackupObject \<Rightarrow> world \<Rightarrow> (js_error + unit) \<times> world" where
  "deleteObject env this backupObject w = (Inl (Error ''Not yet implemented  :(''), w)"

subsection \<open>Numbers in template strings\<close>

text \<open>\<^verbatim>\<open>`${timestamp}`\<close>: an integer below \<open>10\<^sup>2\<^sup>1\<close> prints as its decimal digits.\<close>

definition digit_char :: "nat \<Rightarrow> char" where
  "digit_char d =
     (if d = 0 then CHR ''0'' else if d = 1 then CHR ''1'' else if d = 2 then CHR ''2''
      else if d = 3 then CHR ''3'' else if d = 4 then CHR ''4'' else if d = 5 then CHR ''5''
      else if d = 6 then CHR ''6'' else if d = 7 then CHR ''7'' else if d = 8 then CHR ''8''
      else CHR ''9'')"

fun digits_of :: "nat \<Rightarrow> string" where
  "digits_of n = (if n < 10 then [digit_char n] else digits_of (n div 10) @ [digit_char (n mod 10)])"

declare digits_of.simps [simp del]

definition Number_toString :: "int \<Rightarrow> string" where
  "Number_toString i = (if i < 0 then CHR ''-'' # digits_of (nat (- i)) else digits_of (nat i))"

subsection \<open>Serialised batches\<close>

text \<open>
  What \<^verbatim>\<open>JSON.stringify\<close> is given: a change with its payload as the store holds it at
  that moment, and an extracted image, property by property. The property names of a
  change are those of the spec's ChangeRecord; those of an image are the ones the loop
  of \<^verbatim>\<open>separateDataFromImageChanges\<close> writes.
\<close>

definition js_of_change_type :: "change_type \<Rightarrow> jsval" where
  "js_of_change_type t = (case t of Create \<Rightarrow> JStr ''create'' | Update \<Rightarrow> JStr ''update''
                          | Delete \<Rightarrow> JStr ''delete'')"

definition js_of_change :: "(ref \<Rightarrow> props) \<Rightarrow> ObjectChange \<Rightarrow> jsval" where
  "js_of_change h change =
     JObj [(''collection'', JStr (collection change)),
           (''objectPk'', JStr (objectPk change)),
           (''object'', (case object change of None \<Rightarrow> JNull | Some r \<Rightarrow> JObj (h r))),
           (''changeType'', js_of_change_type (changeType change))]"

definition js_of_image :: "ExtractedImage \<Rightarrow> jsval" where
  "js_of_image img =
     JObj [(''collection'', JStr (img_collection img)),
           (''pk'', JStr (img_pk img)),
           (''type'', JStr (img_type img)),
           (''data'', img_data img)]"

definition changes_body :: "env \<Rightarrow> int \<Rightarrow> (ref \<Rightarrow> props) \<Rightarrow> ObjectChange list \<Rightarrow> string" where
  "changes_body env version h changes =
     JSON_stringify env
       (JObj [(''version'', JNum version), (''changes'', JArr (map (js_of_change h) changes))]) 4"

definition images_body :: "env \<Rightarrow> int \<Rightarrow> ExtractedImage list \<Rightarrow> string" where
  "images_body env version images =
     JSON_stringify env
       (JObj [(''version'', JNum version), (''images'', JArr (map js_of_image images))]) 4"

subsection \<open>backupChanges\<close>

definition backupChanges ::
    "env \<Rightarrow> SimpleHttpBackend \<Rightarrow> ObjectChange list \<Rightarrow> int \<Rightarrow> bool \<Rightarrow> world
      \<Rightarrow> (js_error + unit) \<times> world" where
  "backupChanges env this unprocessedChanges currentSchemaVersion storeBlobs w =
     (case separateDataFromImageChanges env unprocessedChanges w of
        ((changes, images), w1) \<Rightarrow>
          (let timestamp = now w1 in
           (case writeToPath env this (''change-sets/'' @ Number_toString timestamp)
                   (changes_body env currentSchemaVersion (heap w1) changes) w1 of
              (Inl e, w2) \<Rightarrow> (Inl e, w2)
            | (Inr u, w2) \<Rightarrow>
                if shouldWriteImages images storeBlobs then
                  writeToPath env this (''images/'' @ Number_toString timestamp)
                    (images_body env currentSchemaVersion images) w2
                else (Inr (), w2))))"

subsection \<open>listObjects and the parsing of a listing\<close>

text \<open>\<^verbatim>\<open>body.split('\n')\<close>: the pieces between line feeds; never the empty list.\<close>

fun split_lines :: "string \<Rightarrow> string list" where
  "split_lines [] = [[]]"
| "split_lines (c # cs) =
     (if c = CHR 0x0A then [] # split_lines cs
      else (case split_lines cs of
              [] \<Rightarrow> [[c]]
            | l # ls \<Rightarrow> (c # l) # ls))"

text \<open>
  The pattern \<^verbatim>\<open>href="([^"]+)"\<close> tried at the start of a string: the literal
  \<^verbatim>\<open>href="\<close>, then the longest run of characters other than the double quote, which
  must not be empty and must be followed by a double quote. The result is group 1.
\<close>

definition match_href_here :: "string \<Rightarrow> string option" where
  "match_href_here s =
     (if take 6 s = ''href=\"'' then
        (let run = takeWhile (\<lambda>c. c \<noteq> CHR 0x22) (drop 6 s);
             rest = dropWhile (\<lambda>c. c \<noteq> CHR 0x22) (drop 6 s)
         in if run \<noteq> [] \<and> rest \<noteq> [] then Some run else None)
      else None)"

text \<open>
  \<^verbatim>\<open>/href="([^"]+)"/g.exec(line)\<close> on a fresh regular expression: the leftmost match,
  searched from index 0; \<open>None\<close> for \<^verbatim>\<open>null\<close>.
\<close>

fun exec_href :: "string \<Rightarrow> string option" where
  "exec_href [] = None"
| "exec_href (c # cs) =
     (case match_href_here (c # cs) of
        Some g \<Rightarrow> Some g
      | None \<Rightarrow> exec_href cs)"

text \<open>The lines of \<^verbatim>\<open>listObjects\<close> after the body has been read.\<close>

definition parseListing :: "string \<Rightarrow> string list" where
  "parseListing body =
     (let lines = split_lines body;
          matches = map exec_href lines;
          fileNames = map the (filter (\<lambda>m. m \<noteq> None) matches)
      in fileNames)"

definition listObjects ::
    "env \<Rightarrow> SimpleHttpBackend \<Rightarrow> string \<Rightarrow> world \<Rightarrow> (js_error + string list) \<times> world" where
  "listObjects env this coll w =
     (case fetch env \<lparr>req_method = ''GET'', req_url = url this @ ''/'' @ coll,
                      req_body = None\<rparr> w of
        (Inl e, w') \<Rightarrow> (Inl e, w')
      | (Inr response, w') \<Rightarrow>
          if resp_status response = 404 then (Inr [], w')
          else if \<not> resp_ok response then
            (case resp_text response of
               Inl e \<Rightarrow> (Inl e, w')
             | Inr t \<Rightarrow> (Inl (Error t), w'))
          else
            (case resp_text response of
               Inl e \<Rightarrow> (Inl e, w')
             | Inr body \<Rightarrow> (Inr (parseListing body), w')))"

text \<open>
  \<^verbatim>\<open>lines.join('\\n')\<close>, the inverse of the split: used to say what the lines of a body
  are.
\<close>

fun join_lines :: "string list \<Rightarrow> string" where
  "join_lines [] = []"
| "join_lines [l] = l"
| "join_lines (l # l' # ls) = l @ CHR 0x0A # join_lines (l' # ls)"

section \<open>Example inputs\<close>

text \<open>
  A blob encoder that accepts blobs only, a server that answers every request with an
  empty 200, and a store with two pages, two favicons and one deleted page; the
  payloads at references 2 and 3 hold values that the encoder rejects.
\<close>

definition example_env :: env where
  "example_env =
     \<lparr>encodeBlob = (\<lambda>v. case v of JBlob b \<Rightarrow> Inr (JStr (''data:'' @ b))
                          | _ \<Rightarrow> Inl (Error ''not a blob'')),
      JSON_stringify = (\<lambda>v indent. ''{}''),
      encodeURIComponent = (\<lambda>s. s),
      remote = (\<lambda>seen req. Inr \<lparr>resp_status = 200, resp_text = Inr ''''\<rparr>)\<rparr>"

definition example_heap :: "ref \<Rightarrow> props" where
  "example_heap r =
     (if r = 0 then [(''url'', JStr ''a.com''), (''screenshot'', JBlob ''png'')]
      else if r = 1 then [(''hostname'', JStr ''a.com''), (''favIcon'', JBlob ''ico'')]
      else if r = 2 then [(''url'', JStr ''b.com''), (''screenshot'', JStr ''broken'')]
      else if r = 3 then [(''hostname'', JStr ''b.com''), (''favIcon'', JStr ''broken'')]
      else [])"

definition example_world :: world where
  "example_world = \<lparr>heap = example_heap, reported = [], requests = [], now = 1541234567890\<rparr>"

definition page_change :: ObjectChange where
  "page_change = \<lparr>collection = ''pages'', objectPk = ''a.com'', object = Some 0, changeType = Create\<rparr>"

definition favIcon_change :: ObjectChange where
  "favIcon_change = \<lparr>collection = ''favIcons'', objectPk = ''a.com'', object = Some 1, changeType = Update\<rparr>"

definition broken_page_change :: ObjectChange where
  "broken_page_change = \<lparr>collection = ''pages'', objectPk = ''b.com'', object = Some 2, changeType = Create\<rparr>"

definition broken_favIcon_change :: ObjectChange where
  "broken_favIcon_change = \<lparr>collection = ''favIcons'', objectPk = ''b.com'', object = Some 3, changeType = Create\<rparr>"

definition deleted_page_change :: ObjectChange where
  "deleted_page_change = \<lparr>collection = ''pages'', objectPk = ''c.com'', object = None, changeType = Delete\<rparr>"

text \<open>
  Two more changes that refer to the payloads of the first page and the first favicon,
  and an encoder that also accepts what it has returned.
\<close>

definition shared_page_change :: ObjectChange where
  "shared_page_change =
     \<lparr>collection = ''pages'', objectPk = ''a.com/2'', object = Some 0, changeType = Update\<rparr>"

definition shared_favIcon_change :: ObjectChange where
  "shared_favIcon_change =
     \<lparr>collection = ''favIcons'', objectPk = ''a.com/2'', object = Some 1, changeType = Update\<rparr>"

definition env_reencoding :: env where
  "env_reencoding =
     example_env\<lparr>encodeBlob := (\<lambda>v. case v of JBlob b \<Rightarrow> Inr (JStr (''data:'' @ b))
                                        | JStr s \<Rightarrow> Inr (JStr (''data:'' @ s))
                                        | _ \<Rightarrow> Inl (Error ''not a blob''))\<rparr>"

definition example_backend :: SimpleHttpBackend where
  "example_backend = \<lparr>url = ''http://backup''\<rparr>"

text \<open>A server that answers every request with the given status and body.\<close>

definition env_answering :: "int \<Rightarrow> string \<Rightarrow> env" where
  "env_answering status body =
     example_env\<lparr>remote := (\<lambda>seen req. Inr \<lparr>resp_status = status, resp_text = Inr body\<rparr>)\<rparr>"

text \<open>A network that is down: every \<^verbatim>\<open>fetch\<close> rejects.\<close>

definition env_offline :: env where
  "env_offline = example_env\<lparr>remote := (\<lambda>seen req. Inl (Error ''Failed to fetch''))\<rparr>"

text \<open>The listing of the spec's example: two links and a line without one.\<close>

definition example_listing :: string where
  "example_listing =
     ''<a href=\"1234\">1234</a>'' @ CHR 0x0A # ''no link here'' @ CHR 0x0A #
     ''<a href=\"5678\">5678</a>''"

lemmas example_defs =
  example_env_def example_heap_def example_world_def page_change_def favIcon_change_def
  broken_page_change_def broken_favIcon_change_def deleted_page_change_def
  shared_page_change_def shared_favIcon_change_def env_reencoding_def
  example_backend_def env_answering_def env_offline_def example_listing_def

lemmas classifier_defs =
  separateDataFromImageChanges_def prepareBackupChangeForStorage_def screenshot_rule_def
  favIcon_rule_def pushed_images_def Object_entries_def write_prop_def captureException_def
  get_prop_def set_prop_def

section \<open>Properties of the classifier\<close>

subsection \<open>Reading and writing properties\<close>

lemma get_set_prop_same: "get_prop (set_prop obj k v) k = v"
  by (simp add: get_prop_def set_prop_def update_conv')

lemma get_set_prop_other: "k' \<noteq> k \<Longrightarrow> get_prop (set_prop obj k v) k' = get_prop obj k'"
  by (simp add: get_prop_def set_prop_def update_conv')

lemma non_null_has_key: "non_null (get_prop obj k) \<Longrightarrow> k \<in> fst ` set obj"
  by (cases "map_of obj k") (auto simp: get_prop_def dest: map_of_SomeD intro: rev_image_eqI)

lemma set_prop_keys: "non_null (get_prop obj k) \<Longrightarrow> map fst (set_prop obj k v) = map fst obj"
  using non_null_has_key [of obj k] by (simp add: set_prop_def update_keys)

lemma screenshot_rule_pages:
  assumes "collection change = ''pages''" "object change = Some r"
    "non_null (get_prop (heap w r) ''screenshot'')"
  shows "screenshot_rule env change images w =
     (case encodeBlob env (get_prop (heap w r) ''screenshot'') of
        Inr d \<Rightarrow> (set_prop images ''screenshot'' d, write_prop r ''screenshot'' JUndefined w)
      | Inl e \<Rightarrow> (images, write_prop r ''screenshot'' JUndefined (captureException e w)))"
  using assms by (simp add: screenshot_rule_def)

lemma favIcon_rule_pages: "collection change = ''pages'' \<Longrightarrow> favIcon_rule env change w = w"
  by (simp add: favIcon_rule_def)

lemma prepare_pages:
  assumes "collection change = ''pages''" "object change = Some r"
    "non_null (get_prop (heap w r) ''screenshot'')"
  shows "prepareBackupChangeForStorage env change w =
     (case encodeBlob env (get_prop (heap w r) ''screenshot'') of
        Inr d \<Rightarrow> ([(''screenshot'', d)], write_prop r ''screenshot'' JUndefined w)
      | Inl e \<Rightarrow> ([], write_prop r ''screenshot'' JUndefined (captureException e w)))"
  using assms
  by (simp add: prepareBackupChangeForStorage_def screenshot_rule_pages favIcon_rule_pages
      set_prop_def split: sum.splits)


lemma prepare_null: "object change = None \<Longrightarrow> prepareBackupChangeForStorage env change w = ([], w)"
  by (simp add: prepareBackupChangeForStorage_def screenshot_rule_def favIcon_rule_def)

lemma classify_loop_acc:
  "classify_loop env cs images w =
     (images @ fst (classify_loop env cs [] w), snd (classify_loop env cs [] w))"
proof (induction cs arbitrary: images w)
  case Nil
  show ?case by simp
next
  case (Cons c cs)
  obtain ci w1 where p: "prepareBackupChangeForStorage env c w = (ci, w1)"
    by (cases "prepareBackupChangeForStorage env c w")
  show ?case
    using Cons.IH [of "images @ pushed_images c ci" w1] Cons.IH [of "pushed_images c ci" w1]
    by (simp add: p)
qed

lemma separate_changes: "fst (fst (separateDataFromImageChanges env cs w)) = cs"
  by (simp add: separateDataFromImageChanges_def split: prod.splits)

lemma separate_Nil: "separateDataFromImageChanges env [] w = (([], []), w)"
  by (simp add: separateDataFromImageChanges_def)

lemma separate_Cons:
  "separateDataFromImageChanges env (c # cs) w =
     (case prepareBackupChangeForStorage env c w of
        (ci, w1) \<Rightarrow>
          ((c # cs, pushed_images c ci @ snd (fst (separateDataFromImageChanges env cs w1))),
           snd (separateDataFromImageChanges env cs w1)))"
proof -
  obtain ci w1 where p: "prepareBackupChangeForStorage env c w = (ci, w1)"
    by (cases "prepareBackupChangeForStorage env c w")
  show ?thesis
    using classify_loop_acc [of env cs "pushed_images c ci" w1]
    by (simp add: separateDataFromImageChanges_def p split: prod.splits)
qed

lemma separate_append:
  "separateDataFromImageChanges env (xs @ ys) w =
     ((xs @ ys,
       snd (fst (separateDataFromImageChanges env xs w)) @
       snd (fst (separateDataFromImageChanges env ys (snd (separateDataFromImageChanges env xs w))))),
      snd (separateDataFromImageChanges env ys (snd (separateDataFromImageChanges env xs w))))"
proof (induction xs arbitrary: w)
  case Nil
  show ?case
    by (simp add: separate_Nil separate_changes [symmetric] prod_eq_iff separate_changes)
next
  case (Cons c xs)
  show ?case
    by (simp add: separate_Cons Cons.IH split: prod.splits)
qed

subsection \<open>What one preparation leaves alone\<close>

lemma heap_write_prop: "heap (write_prop r k v w) = (heap w)(r := set_prop (heap w r) k v)"
  by (simp add: write_prop_def)

lemma heap_captureException: "heap (captureException e w) = heap w"
  by (simp add: captureException_def)

lemma prepare_requests: "requests (snd (prepareBackupChangeForStorage env c w)) = requests w"
  by (simp add: prepareBackupChangeForStorage_def screenshot_rule_def favIcon_rule_def
      write_prop_def captureException_def split: option.splits sum.splits)

lemma prepare_now: "now (snd (prepareBackupChangeForStorage env c w)) = now w"
  by (simp add: prepareBackupChangeForStorage_def screenshot_rule_def favIcon_rule_def
      write_prop_def captureException_def split: option.splits sum.splits)

lemma prepare_other_props:
  "k \<noteq> ''screenshot'' \<Longrightarrow> k \<noteq> ''favIcon'' \<Longrightarrow>
   get_prop (heap (snd (prepareBackupChangeForStorage env c w)) r) k = get_prop (heap w r) k"
  by (simp add: prepareBackupChangeForStorage_def screenshot_rule_def favIcon_rule_def
      heap_write_prop heap_captureException get_set_prop_other split: option.splits sum.splits)

lemma prepare_other_refs:
  "object c \<noteq> Some r \<Longrightarrow> heap (snd (prepareBackupChangeForStorage env c w)) r = heap w r"
  by (auto simp add: prepareBackupChangeForStorage_def screenshot_rule_def favIcon_rule_def
      heap_write_prop heap_captureException split: option.splits sum.splits)

lemma prepare_other_collections:
  "collection c \<noteq> ''pages'' \<Longrightarrow> collection c \<noteq> ''favIcons'' \<Longrightarrow>
   prepareBackupChangeForStorage env c w = ([], w)"
  by (simp add: prepareBackupChangeForStorage_def screenshot_rule_def favIcon_rule_def)

lemma prepare_keys:
  "map fst (heap (snd (prepareBackupChangeForStorage env c w)) r) = map fst (heap w r)"
  by (simp add: prepareBackupChangeForStorage_def screenshot_rule_def favIcon_rule_def
      heap_write_prop heap_captureException set_prop_keys split: option.splits sum.splits)

subsection \<open>What the whole loop leaves alone\<close>

lemma prepare_screenshot_stays_undefined:
  "get_prop (heap w r) ''screenshot'' = JUndefined \<Longrightarrow>
   get_prop (heap (snd (prepareBackupChangeForStorage env c w)) r) ''screenshot'' = JUndefined"
  by (auto simp add: prepareBackupChangeForStorage_def screenshot_rule_def favIcon_rule_def
      heap_write_prop heap_captureException get_set_prop_other get_set_prop_same
      split: option.splits sum.splits if_splits)

lemma separate_snd_Cons:
  "snd (separateDataFromImageChanges env (c # cs) w) =
     snd (separateDataFromImageChanges env cs (snd (prepareBackupChangeForStorage env c w)))"
  by (simp add: separate_Cons split: prod.splits)

lemma separate_requests: "requests (snd (separateDataFromImageChanges env cs w)) = requests w"
  by (induction cs arbitrary: w) (simp_all add: separate_Nil separate_snd_Cons prepare_requests)

lemma separate_now: "now (snd (separateDataFromImageChanges env cs w)) = now w"
  by (induction cs arbitrary: w) (simp_all add: separate_Nil separate_snd_Cons prepare_now)

lemma separate_other_props:
  "k \<noteq> ''screenshot'' \<Longrightarrow> k \<noteq> ''favIcon'' \<Longrightarrow>
   get_prop (heap (snd (separateDataFromImageChanges env cs w)) r) k = get_prop (heap w r) k"
  by (induction cs arbitrary: w) (simp_all add: separate_Nil separate_snd_Cons prepare_other_props)

lemma separate_keys:
  "map fst (heap (snd (separateDataFromImageChanges env cs w)) r) = map fst (heap w r)"
  by (induction cs arbitrary: w) (simp_all add: separate_Nil separate_snd_Cons prepare_keys)

lemma separate_other_refs:
  "\<forall>c\<in>set cs. object c \<noteq> Some r \<or> (collection c \<noteq> ''pages'' \<and> collection c \<noteq> ''favIcons'') \<Longrightarrow>
   heap (snd (separateDataFromImageChanges env cs w)) r = heap w r"
proof (induction cs arbitrary: w)
  case Nil
  show ?case by (simp add: separate_Nil)
next
  case (Cons c cs)
  have "heap (snd (prepareBackupChangeForStorage env c w)) r = heap w r"
    using Cons.prems prepare_other_refs [of c r env w] prepare_other_collections [of c env w]
    by auto
  then show ?case
    using Cons by (simp add: separate_snd_Cons)
qed

lemma separate_screenshot_stays_undefined:
  "get_prop (heap w r) ''screenshot'' = JUndefined \<Longrightarrow>
   get_prop (heap (snd (separateDataFromImageChanges env cs w)) r) ''screenshot'' = JUndefined"
  by (induction cs arbitrary: w)
    (simp_all add: separate_Nil separate_snd_Cons prepare_screenshot_stays_undefined)

lemma separate_null_payloads:
  "\<forall>c\<in>set cs. object c = None \<Longrightarrow> separateDataFromImageChanges env cs w = ((cs, []), w)"
  by (induction cs arbitrary: w)
    (simp_all add: separate_Nil separate_Cons prepare_null pushed_images_def Object_entries_def)

subsection \<open>A change when the loop reaches it\<close>

text \<open>
  What the loop does with a change of collection "pages" whose payload holds a non-null
  \<^verbatim>\<open>screenshot\<close> at the moment the loop reaches it, after the changes before it have
  been classified.
\<close>

lemma pages_change_when_reached:
  assumes pages: "collection change = ''pages''"
    and payload: "object change = Some r"
    and shot: "non_null (get_prop (heap (snd (separateDataFromImageChanges env pre w)) r) ''screenshot'')"
  shows "(let wp = snd (separateDataFromImageChanges env pre w);
              before = snd (fst (separateDataFromImageChanges env pre w));
              result = separateDataFromImageChanges env (pre @ change # post) w;
              cleared = write_prop r ''screenshot'' JUndefined
          in fst (fst result) = pre @ change # post \<and>
             get_prop (heap (snd result) r) ''screenshot'' = JUndefined \<and>
             (case encodeBlob env (get_prop (heap wp r) ''screenshot'') of
                Inr encoded \<Rightarrow>
                  prepareBackupChangeForStorage env change wp =
                    ([(''screenshot'', encoded)], cleared wp) \<and>
                  snd (fst result) =
                    before @
                    [\<lparr>img_collection = collection change, img_pk = objectPk change,
                      img_type = ''screenshot'', img_data = encoded\<rparr>] @
                    snd (fst (separateDataFromImageChanges env post (cleared wp)))
              | Inl e \<Rightarrow>
                  prepareBackupChangeForStorage env change wp =
                    ([], cleared (captureException e wp)) \<and>
                  snd (fst result) =
                    before @
                    snd (fst (separateDataFromImageChanges env post
                                (cleared (captureException e wp))))))"
proof -
  define wp where "wp = snd (separateDataFromImageChanges env pre w)"
  define s where "s = get_prop (heap wp r) ''screenshot''"
  have shot': "non_null (get_prop (heap wp r) ''screenshot'')"
    using shot by (simp add: wp_def)
  have prep: "prepareBackupChangeForStorage env change wp =
      (case encodeBlob env s of
         Inr d \<Rightarrow> ([(''screenshot'', d)], write_prop r ''screenshot'' JUndefined wp)
       | Inl e \<Rightarrow> ([], write_prop r ''screenshot'' JUndefined (captureException e wp)))"
    unfolding s_def by (rule prepare_pages [OF pages payload shot'])
  define w1 where "w1 = snd (prepareBackupChangeForStorage env change wp)"
  have cleared1: "get_prop (heap w1 r) ''screenshot'' = JUndefined"
    by (simp add: w1_def prep heap_write_prop get_set_prop_same split: sum.splits)
  have final: "snd (separateDataFromImageChanges env (pre @ change # post) w) =
      snd (separateDataFromImageChanges env post w1)"
    by (simp add: separate_append [of env pre "change # post"] separate_snd_Cons wp_def w1_def)
  have cleared_final:
    "get_prop (heap (snd (separateDataFromImageChanges env (pre @ change # post) w)) r)
       ''screenshot'' = JUndefined"
    unfolding final by (rule separate_screenshot_stays_undefined [OF cleared1])
  have imgs: "snd (fst (separateDataFromImageChanges env (pre @ change # post) w)) =
      snd (fst (separateDataFromImageChanges env pre w)) @
      pushed_images change (fst (prepareBackupChangeForStorage env change wp)) @
      snd (fst (separateDataFromImageChanges env post w1))"
    by (simp add: separate_append [of env pre "change # post"] separate_Cons wp_def w1_def
        split: prod.splits)
  show ?thesis
  proof (cases "encodeBlob env s")
    case (Inl e)
    then show ?thesis
      using cleared_final imgs prep
      by (simp add: Let_def separate_changes wp_def [symmetric] s_def [symmetric] w1_def
          pushed_images_def Object_entries_def)
  next
    case (Inr d)
    then show ?thesis
      using cleared_final imgs prep
      by (simp add: Let_def separate_changes wp_def [symmetric] s_def [symmetric] w1_def
          pushed_images_def Object_entries_def)
  qed
qed

subsection \<open>Payloads that several changes share\<close>

lemma prepare_screenshot_unshared:
  "\<not> (collection c = ''pages'' \<and> object c = Some r) \<Longrightarrow>
   get_prop (heap (snd (prepareBackupChangeForStorage env c w)) r) ''screenshot'' =
   get_prop (heap w r) ''screenshot''"
  by (auto simp add: prepareBackupChangeForStorage_def screenshot_rule_def favIcon_rule_def
      heap_write_prop heap_captureException get_set_prop_other
      split: option.splits sum.splits)

lemma separate_screenshot_unshared:
  "\<forall>c\<in>set cs. \<not> (collection c = ''pages'' \<and> object c = Some r) \<Longrightarrow>
   get_prop (heap (snd (separateDataFromImageChanges env cs w)) r) ''screenshot'' =
   get_prop (heap w r) ''screenshot''"
proof (induction cs arbitrary: w)
  case Nil
  show ?case by (simp add: separate_Nil)
next
  case (Cons c cs)
  have "get_prop (heap (snd (prepareBackupChangeForStorage env c w)) r) ''screenshot'' =
      get_prop (heap w r) ''screenshot''"
    using Cons.prems by (intro prepare_screenshot_unshared) simp
  moreover have "\<forall>c\<in>set cs. \<not> (collection c = ''pages'' \<and> object c = Some r)"
    using Cons.prems by simp
  ultimately show ?case
    using Cons.IH [of "snd (prepareBackupChangeForStorage env c w)"]
    by (simp add: separate_snd_Cons)
qed

lemma prepare_pages_clears:
  "collection c = ''pages'' \<Longrightarrow> object c = Some r \<Longrightarrow>
   non_null (get_prop (heap w r) ''screenshot'') \<Longrightarrow>
   get_prop (heap (snd (prepareBackupChangeForStorage env c w)) r) ''screenshot'' = JUndefined"
  by (simp add: prepare_pages heap_write_prop get_set_prop_same split: sum.splits)

lemma prepare_pages_cleared_noop:
  "collection c = ''pages'' \<Longrightarrow> object c = Some r \<Longrightarrow>
   get_prop (heap w r) ''screenshot'' = JUndefined \<Longrightarrow>
   prepareBackupChangeForStorage env c w = ([], w)"
  by (simp add: prepareBackupChangeForStorage_def screenshot_rule_def favIcon_rule_def)

lemma separate_screenshot_shared:
  "non_null (get_prop (heap w r) ''screenshot'') \<Longrightarrow>
   \<exists>c\<in>set cs. collection c = ''pages'' \<and> object c = Some r \<Longrightarrow>
   get_prop (heap (snd (separateDataFromImageChanges env cs w)) r) ''screenshot'' = JUndefined"
proof (induction cs arbitrary: w)
  case Nil
  then show ?case by simp
next
  case (Cons c cs)
  show ?case
  proof (cases "collection c = ''pages'' \<and> object c = Some r")
    case True
    then have "get_prop (heap (snd (prepareBackupChangeForStorage env c w)) r) ''screenshot'' =
        JUndefined"
      using Cons.prems(1) by (simp add: prepare_pages_clears)
    then show ?thesis
      by (simp add: separate_snd_Cons separate_screenshot_stays_undefined)
  next
    case False
    then have same: "get_prop (heap (snd (prepareBackupChangeForStorage env c w)) r) ''screenshot'' =
        get_prop (heap w r) ''screenshot''"
      by (rule prepare_screenshot_unshared)
    have later: "\<exists>c\<in>set cs. collection c = ''pages'' \<and> object c = Some r"
      using Cons.prems(2) False by auto
    show ?thesis
      using Cons.IH [of "snd (prepareBackupChangeForStorage env c w)"] same later Cons.prems(1)
      by (simp add: separate_snd_Cons)
  qed
qed




lemma separate_around:
  "separateDataFromImageChanges env (pre @ change # post) w =
     (let wp = snd (separateDataFromImageChanges env pre w);
          step = prepareBackupChangeForStorage env change wp
      in ((pre @ change # post,
           snd (fst (separateDataFromImageChanges env pre w)) @
           pushed_images change (fst step) @
           snd (fst (separateDataFromImageChanges env post (snd step)))),
          snd (separateDataFromImageChanges env post (snd step))))"
  by (simp add: separate_append [of env pre "change # post"] separate_Cons Let_def
      split: prod.splits)

section \<open>The claims about the classifier\<close>

text \<open>
  C1, as the code has it. A change in collection "pages" whose payload is not null and
  holds a non-null \<^verbatim>\<open>screenshot\<close> in the input: the returned sequence is the input
  sequence, and the \<^verbatim>\<open>screenshot\<close> of its payload is \<^verbatim>\<open>undefined\<close> in the final store
  whether the encoding succeeded or failed. When no earlier change of collection "pages"
  refers to the same payload, the images of the whole run are those of the changes before
  it, then exactly one image of type "screenshot" with the change's collection and
  primary key when the encoding succeeded (none when it failed), then those of the
  changes after it. When an earlier change of collection "pages" refers to the same
  payload, that change has cleared the field already, and nothing is pushed for this one.
  So the screenshot is never in both outputs.
\<close>

theorem C1_screenshot_extracted_and_cleared:
  assumes pages: "collection change = ''pages''"
    and payload: "object change = Some r"
    and shot: "non_null (get_prop (heap w r) ''screenshot'')"
  shows "(let original = get_prop (heap w r) ''screenshot'';
              wp = snd (separateDataFromImageChanges env pre w);
              before = snd (fst (separateDataFromImageChanges env pre w));
              result = separateDataFromImageChanges env (pre @ change # post) w;
              cleared = write_prop r ''screenshot'' JUndefined
          in fst (fst result) = pre @ change # post \<and>
             get_prop (heap (snd result) r) ''screenshot'' = JUndefined \<and>
             ((\<forall>c\<in>set pre. \<not> (collection c = ''pages'' \<and> object c = Some r)) \<longrightarrow>
                (case encodeBlob env original of
                   Inr encoded \<Rightarrow>
                     prepareBackupChangeForStorage env change wp =
                       ([(''screenshot'', encoded)], cleared wp) \<and>
                     snd (fst result) =
                       before @
                       [\<lparr>img_collection = collection change, img_pk = objectPk change,
                         img_type = ''screenshot'', img_data = encoded\<rparr>] @
                       snd (fst (separateDataFromImageChanges env post (cleared wp)))
                 | Inl e \<Rightarrow>
                     prepareBackupChangeForStorage env change wp =
                       ([], cleared (captureException e wp)) \<and>
                     snd (fst result) =
                       before @
                       snd (fst (separateDataFromImageChanges env post
                                   (cleared (captureException e wp)))))) \<and>
             ((\<exists>c\<in>set pre. collection c = ''pages'' \<and> object c = Some r) \<longrightarrow>
                prepareBackupChangeForStorage env change wp = ([], wp) \<and>
                snd (fst result) = before @ snd (fst (separateDataFromImageChanges env post wp))))"
proof -
  define wp where "wp = snd (separateDataFromImageChanges env pre w)"
  define original where "original = get_prop (heap w r) ''screenshot''"
  have unshared: "get_prop (heap wp r) ''screenshot'' = original"
    if "\<forall>c\<in>set pre. \<not> (collection c = ''pages'' \<and> object c = Some r)"
    unfolding wp_def original_def using that by (rule separate_screenshot_unshared)
  have shared: "get_prop (heap wp r) ''screenshot'' = JUndefined"
    if "\<exists>c\<in>set pre. collection c = ''pages'' \<and> object c = Some r"
    unfolding wp_def using shot that by (rule separate_screenshot_shared)
  have noop: "prepareBackupChangeForStorage env change wp = ([], wp)"
    if "\<exists>c\<in>set pre. collection c = ''pages'' \<and> object c = Some r"
    using pages payload shared [OF that] by (rule prepare_pages_cleared_noop)
  have part1: "fst (fst (separateDataFromImageChanges env (pre @ change # post) w)) =
      pre @ change # post"
    by (rule separate_changes)
  have part2: "get_prop (heap (snd (separateDataFromImageChanges env (pre @ change # post) w)) r)
      ''screenshot'' = JUndefined"
  proof (cases "\<exists>c\<in>set pre. collection c = ''pages'' \<and> object c = Some r")
    case True
    have "get_prop (heap (snd (separateDataFromImageChanges env post wp)) r) ''screenshot'' =
        JUndefined"
      using shared [OF True] by (rule separate_screenshot_stays_undefined)
    then show ?thesis
      by (simp add: separate_around Let_def wp_def [symmetric] noop [OF True])
  next
    case False
    then have "non_null (get_prop (heap wp r) ''screenshot'')"
      using unshared shot by (simp add: original_def)
    from pages_change_when_reached [OF pages payload this [unfolded wp_def], of post]
    show ?thesis
      by (simp add: Let_def)
  qed
  have part3: "(case encodeBlob env original of
       Inr encoded \<Rightarrow>
         prepareBackupChangeForStorage env change wp =
           ([(''screenshot'', encoded)], write_prop r ''screenshot'' JUndefined wp) \<and>
         snd (fst (separateDataFromImageChanges env (pre @ change # post) w)) =
           snd (fst (separateDataFromImageChanges env pre w)) @
           [\<lparr>img_collection = collection change, img_pk = objectPk change,
             img_type = ''screenshot'', img_data = encoded\<rparr>] @
           snd (fst (separateDataFromImageChanges env post
                       (write_prop r ''screenshot'' JUndefined wp)))
     | Inl e \<Rightarrow>
         prepareBackupChangeForStorage env change wp =
           ([], write_prop r ''screenshot'' JUndefined (captureException e wp)) \<and>
         snd (fst (separateDataFromImageChanges env (pre @ change # post) w)) =
           snd (fst (separateDataFromImageChanges env pre w)) @
           snd (fst (separateDataFromImageChanges env post
                       (write_prop r ''screenshot'' JUndefined (captureException e wp)))))"
    if u: "\<forall>c\<in>set pre. \<not> (collection c = ''pages'' \<and> object c = Some r)"
  proof -
    have reached: "non_null (get_prop (heap wp r) ''screenshot'')"
      using unshared [OF u] shot by (simp add: original_def)
    from pages_change_when_reached [OF pages payload reached [unfolded wp_def], of post]
    show ?thesis
      using unshared [OF u] by (simp add: Let_def wp_def [symmetric])
  qed
  have part4: "prepareBackupChangeForStorage env change wp = ([], wp) \<and>
      snd (fst (separateDataFromImageChanges env (pre @ change # post) w)) =
        snd (fst (separateDataFromImageChanges env pre w)) @
        snd (fst (separateDataFromImageChanges env post wp))"
    if s: "\<exists>c\<in>set pre. collection c = ''pages'' \<and> object c = Some r"
    by (simp add: separate_around Let_def wp_def [symmetric] noop [OF s] pushed_images_def
        Object_entries_def)
  show ?thesis
    using part1 part2 part3 part4
    by (simp add: Let_def wp_def [symmetric] original_def [symmetric])
qed

theorem C1_witness:
  "collection page_change = ''pages'' \<and> object page_change = Some 0 \<and>
   non_null (get_prop (heap example_world 0) ''screenshot'') \<and>
   get_prop (heap (snd (separateDataFromImageChanges example_env
       [deleted_page_change, page_change, favIcon_change] example_world)) 0) ''screenshot'' = JUndefined \<and>
   snd (fst (separateDataFromImageChanges example_env
       [deleted_page_change, page_change, favIcon_change] example_world)) =
     [\<lparr>img_collection = ''pages'', img_pk = ''a.com'', img_type = ''screenshot'',
       img_data = JStr ''data:png''\<rparr>] \<and>
   collection broken_page_change = ''pages'' \<and> object broken_page_change = Some 2 \<and>
   non_null (get_prop (heap example_world 2) ''screenshot'') \<and>
   get_prop (heap (snd (separateDataFromImageChanges example_env
       [broken_page_change] example_world)) 2) ''screenshot'' = JUndefined \<and>
   snd (fst (separateDataFromImageChanges example_env [broken_page_change] example_world)) = [] \<and>
   collection shared_page_change = ''pages'' \<and> object shared_page_change = Some 0 \<and>
   get_prop (heap (snd (separateDataFromImageChanges example_env
       [page_change, shared_page_change] example_world)) 0) ''screenshot'' = JUndefined"
  using C1_screenshot_extracted_and_cleared [of page_change 0 example_world example_env
      "[deleted_page_change]" "[favIcon_change]"]
    C1_screenshot_extracted_and_cleared [of broken_page_change 2 example_world example_env
      "[]" "[]"]
    C1_screenshot_extracted_and_cleared [of shared_page_change 0 example_world example_env
      "[page_change]" "[]"]
  by (simp add: example_defs classifier_defs)

text \<open>
  C1 as stated fails for two changes of collection "pages" that refer to one payload: the
  second meets the claim's condition in the input and the encoder accepts the screenshot,
  yet the only image pushed carries the first change's primary key.
\<close>

theorem C1_counterexample:
  "collection shared_page_change = ''pages'' \<and>
   object shared_page_change = Some 0 \<and>
   non_null (get_prop (heap example_world 0) ''screenshot'') \<and>
   encodeBlob example_env (get_prop (heap example_world 0) ''screenshot'') =
     Inr (JStr ''data:png'') \<and>
   snd (fst (separateDataFromImageChanges example_env
               [page_change, shared_page_change] example_world)) =
     [\<lparr>img_collection = ''pages'', img_pk = ''a.com'', img_type = ''screenshot'',
       img_data = JStr ''data:png''\<rparr>] \<and>
   filter (\<lambda>img. img_pk img = objectPk shared_page_change)
     (snd (fst (separateDataFromImageChanges example_env
                  [page_change, shared_page_change] example_world))) = []"
  by (simp add: example_defs classifier_defs)




text \<open>
  C9. The sequence that \<^verbatim>\<open>separateDataFromImageChanges\<close> returns is its input: the
  same records in the same order. The payloads are changed in place and only in their
  binary fields: every property other than \<^verbatim>\<open>screenshot\<close> and \<^verbatim>\<open>favIcon\<close> reads as before,
  no property is added or removed, and a payload that no change of collection "pages"
  or "favIcons" refers to is not written at all.
\<close>

theorem C9_changes_returned_in_place:
  "fst (fst (separateDataFromImageChanges env changes w)) = changes \<and>
   (\<forall>r k. k \<noteq> ''screenshot'' \<and> k \<noteq> ''favIcon'' \<longrightarrow>
      get_prop (heap (snd (separateDataFromImageChanges env changes w)) r) k =
      get_prop (heap w r) k) \<and>
   (\<forall>r. map fst (heap (snd (separateDataFromImageChanges env changes w)) r) =
        map fst (heap w r)) \<and>
   (\<forall>r. (\<forall>c\<in>set changes. object c \<noteq> Some r \<or>
                            (collection c \<noteq> ''pages'' \<and> collection c \<noteq> ''favIcons'')) \<longrightarrow>
        heap (snd (separateDataFromImageChanges env changes w)) r = heap w r)"
proof (intro conjI allI impI)
  show "fst (fst (separateDataFromImageChanges env changes w)) = changes"
    by (rule separate_changes)
next
  fix r k
  assume "k \<noteq> ''screenshot'' \<and> k \<noteq> ''favIcon''"
  then show "get_prop (heap (snd (separateDataFromImageChanges env changes w)) r) k =
      get_prop (heap w r) k"
    by (simp add: separate_other_props)
next
  fix r
  show "map fst (heap (snd (separateDataFromImageChanges env changes w)) r) = map fst (heap w r)"
    by (rule separate_keys)
next
  fix r
  assume "\<forall>c\<in>set changes. object c \<noteq> Some r \<or>
      (collection c \<noteq> ''pages'' \<and> collection c \<noteq> ''favIcons'')"
  then show "heap (snd (separateDataFromImageChanges env changes w)) r = heap w r"
    by (rule separate_other_refs)
qed

theorem C9_witness:
  "fst (fst (separateDataFromImageChanges example_env
      [page_change, deleted_page_change, broken_favIcon_change, favIcon_change] example_world)) =
     [page_change, deleted_page_change, broken_favIcon_change, favIcon_change] \<and>
   ''url'' \<noteq> ''screenshot'' \<and> ''url'' \<noteq> ''favIcon'' \<and>
   get_prop (heap (snd (separateDataFromImageChanges example_env
      [page_change, deleted_page_change, broken_favIcon_change, favIcon_change] example_world)) 0)
      ''url'' = JStr ''a.com'' \<and>
   map fst (heap (snd (separateDataFromImageChanges example_env
      [page_change, deleted_page_change, broken_favIcon_change, favIcon_change] example_world)) 0) =
     [''url'', ''screenshot''] \<and>
   heap (snd (separateDataFromImageChanges example_env
      [page_change, deleted_page_change, broken_favIcon_change, favIcon_change] example_world)) 2 =
     [(''url'', JStr ''b.com''), (''screenshot'', JStr ''broken'')]"
  using C9_changes_returned_in_place [of example_env
      "[page_change, deleted_page_change, broken_favIcon_change, favIcon_change]" example_world]
  by (simp add: example_defs classifier_defs)

text \<open>
  C10. A change whose payload is null: the preparation returns no image and the same
  world, whatever the collection, and a run over such changes only returns its input,
  no image, and the same world. No property of a payload is read: the result does not
  depend on the store.
\<close>

theorem C10_null_payload_is_untouched:
  "(object change = None \<longrightarrow> prepareBackupChangeForStorage env change w = ([], w)) \<and>
   ((\<forall>c\<in>set changes. object c = None) \<longrightarrow>
      separateDataFromImageChanges env changes w = ((changes, []), w))"
  using prepare_null [of change env w] separate_null_payloads [of changes env w]
  by blast

theorem C10_witness:
  "object deleted_page_change = None \<and>
   collection deleted_page_change = ''pages'' \<and>
   prepareBackupChangeForStorage example_env deleted_page_change example_world =
     ([], example_world) \<and>
   separateDataFromImageChanges example_env
     [deleted_page_change, deleted_page_change\<lparr>collection := ''favIcons''\<rparr>] example_world =
     (([deleted_page_change, deleted_page_change\<lparr>collection := ''favIcons''\<rparr>], []), example_world)"
  using C10_null_payload_is_untouched [of deleted_page_change example_env example_world
      "[deleted_page_change, deleted_page_change\<lparr>collection := ''favIcons''\<rparr>]"]
  by (simp add: example_defs)

section \<open>The claims about the HTTP backend\<close>

subsection \<open>What one write does\<close>

lemma writeToPath_requests:
  "requests (snd (writeToPath env this path body w)) =
     requests w @ [\<lparr>req_method = ''PUT'', req_url = url this @ ''/'' @ path, req_body = Some body\<rparr>]"
  by (simp add: writeToPath_def fetch_def split: sum.splits)

lemma writeToPath_result:
  "fst (writeToPath env this path body w) =
     (case remote env (requests w)
             \<lparr>req_method = ''PUT'', req_url = url this @ ''/'' @ path, req_body = Some body\<rparr> of
        Inl e \<Rightarrow> Inl e
      | Inr response \<Rightarrow> Inr ())"
  by (simp add: writeToPath_def fetch_def split: sum.splits)

text \<open>
  C7. \<^verbatim>\<open>deleteObject\<close> fails with the error "Not yet implemented  :(" for every input,
  and leaves the world as it was: in particular no request has been issued.
\<close>

theorem C7_deleteObject_not_implemented:
  "fst (deleteObject env this backupObject w) = Inl (Error ''Not yet implemented  :('') \<and>
   snd (deleteObject env this backupObject w) = w \<and>
   requests (snd (deleteObject env this backupObject w)) = requests w"
  by (simp add: deleteObject_def)

text \<open>
  C8. \<^verbatim>\<open>storeObject\<close> issues exactly one request: a PUT to the path made of the
  collection, a slash, and the primary key given to \<^verbatim>\<open>encodeURIComponent\<close> twice, under the
  backend's URL, with the object serialised by \<^verbatim>\<open>JSON.stringify\<close> as its body.
\<close>

theorem C8_storeObject_path:
  "requests (snd (storeObject env this backupObject w)) =
     requests w @
     [\<lparr>req_method = ''PUT'',
       req_url = url this @ ''/'' @ bo_collection backupObject @ ''/'' @
                 encodeURIComponent env (encodeURIComponent env (bo_pk backupObject)),
       req_body = Some (JSON_stringify env (bo_object backupObject) 0)\<rparr>]"
  unfolding storeObject_def by (rule writeToPath_requests)

subsection \<open>Lines and links of a listing\<close>

lemma split_lines_not_Nil: "split_lines s \<noteq> []"
  by (induction s) (simp_all split: list.splits)

lemma join_split_lines: "join_lines (split_lines s) = s"
proof (induction s)
  case Nil
  show ?case by simp
next
  case (Cons c s)
  obtain l ls where sp: "split_lines s = l # ls"
    using split_lines_not_Nil [of s] by (cases "split_lines s") auto
  show ?case
    using Cons sp by (cases ls) auto
qed

lemma split_lines_no_LF: "l \<in> set (split_lines s) \<Longrightarrow> CHR 0x0A \<notin> set l"
proof (induction s arbitrary: l)
  case Nil
  then show ?case by simp
next
  case (Cons c s)
  obtain l0 ls where sp: "split_lines s = l0 # ls"
    using split_lines_not_Nil [of s] by (cases "split_lines s") auto
  show ?case
    using Cons sp by (auto split: if_splits)
qed

lemma split_lines_append: "split_lines (a @ CHR 0x0A # b) = split_lines a @ split_lines b"
proof (induction a)
  case Nil
  show ?case by simp
next
  case (Cons c a)
  obtain l0 ls where sp: "split_lines a = l0 # ls"
    using split_lines_not_Nil [of a] by (cases "split_lines a") auto
  show ?case
    using Cons sp by (auto split: list.splits)
qed

lemma parseListing_lines:
  "parseListing body =
     concat (map (\<lambda>l. case exec_href l of None \<Rightarrow> [] | Some key \<Rightarrow> [key]) (split_lines body))"
proof -
  have "map the (filter (\<lambda>m. m \<noteq> None) (map exec_href ls)) =
      concat (map (\<lambda>l. case exec_href l of None \<Rightarrow> [] | Some key \<Rightarrow> [key]) ls)" for ls
    by (induction ls) (auto split: option.splits)
  then show ?thesis
    by (simp add: parseListing_def)
qed

lemma parseListing_append:
  "parseListing (a @ CHR 0x0A # b) = parseListing a @ parseListing b"
  by (simp add: parseListing_lines split_lines_append)

lemma match_href_here_Some:
  "match_href_here s = Some v \<longleftrightarrow>
     v \<noteq> [] \<and> CHR 0x22 \<notin> set v \<and> (\<exists>post. s = ''href=\"'' @ v @ CHR 0x22 # post)"
proof
  assume m: "match_href_here s = Some v"
  define t where "t = drop 6 s"
  have pre: "take 6 s = ''href=\"''" and v: "v = takeWhile (\<lambda>c. c \<noteq> CHR 0x22) t"
    and ne: "v \<noteq> []" and rest: "dropWhile (\<lambda>c. c \<noteq> CHR 0x22) t \<noteq> []"
    using m by (auto simp: match_href_here_def Let_def t_def split: if_splits)
  have s: "s = ''href=\"'' @ t"
    using pre append_take_drop_id [of 6 s] by (simp add: t_def)
  have "hd (dropWhile (\<lambda>c. c \<noteq> CHR 0x22) t) = CHR 0x22"
    using rest hd_dropWhile [of "\<lambda>c. c \<noteq> CHR 0x22" t] by auto
  then obtain post where d: "dropWhile (\<lambda>c. c \<noteq> CHR 0x22) t = CHR 0x22 # post"
    using rest by (cases "dropWhile (\<lambda>c. c \<noteq> CHR 0x22) t") auto
  have "t = v @ CHR 0x22 # post"
    using takeWhile_dropWhile_id [of "\<lambda>c. c \<noteq> CHR 0x22" t] by (simp add: v d)
  moreover have "CHR 0x22 \<notin> set v"
    unfolding v using set_takeWhileD by fastforce
  ultimately show "v \<noteq> [] \<and> CHR 0x22 \<notin> set v \<and> (\<exists>post. s = ''href=\"'' @ v @ CHR 0x22 # post)"
    using ne s by auto
next
  assume "v \<noteq> [] \<and> CHR 0x22 \<notin> set v \<and> (\<exists>post. s = ''href=\"'' @ v @ CHR 0x22 # post)"
  then obtain post where ne: "v \<noteq> []" and nq: "CHR 0x22 \<notin> set v"
    and s: "s = ''href=\"'' @ v @ CHR 0x22 # post"
    by auto
  have tw: "takeWhile (\<lambda>c. c \<noteq> CHR 0x22) (v @ CHR 0x22 # post) = v"
    using nq by (induction v) auto
  have dw: "dropWhile (\<lambda>c. c \<noteq> CHR 0x22) (v @ CHR 0x22 # post) = CHR 0x22 # post"
    using nq by (induction v) auto
  show "match_href_here s = Some v"
    using ne tw dw by (simp add: match_href_here_def s Let_def)
qed


lemma exec_href_Some:
  "exec_href l = Some key \<Longrightarrow>
     key \<noteq> [] \<and> CHR 0x22 \<notin> set key \<and>
     (\<exists>pre post. l = pre @ ''href=\"'' @ key @ CHR 0x22 # post \<and>
        (\<forall>pre' key' post'. key' \<noteq> [] \<and> CHR 0x22 \<notin> set key' \<and>
             l = pre' @ ''href=\"'' @ key' @ CHR 0x22 # post' \<longrightarrow> length pre \<le> length pre'))"
proof (induction l)
  case Nil
  then show ?case by simp
next
  case (Cons c cs)
  show ?case
  proof (cases "match_href_here (c # cs)")
    case (Some g)
    then have g: "g = key"
      using Cons.prems by simp
    from Some [unfolded g match_href_here_Some] obtain post
      where "key \<noteq> []" "CHR 0x22 \<notin> set key" "c # cs = [] @ ''href=\"'' @ key @ CHR 0x22 # post"
      by auto
    then show ?thesis
      by (metis le0 list.size(3))
  next
    case None
    then have "exec_href cs = Some key"
      using Cons.prems by simp
    from Cons.IH [OF this] obtain pre post
      where ne: "key \<noteq> []" and nq: "CHR 0x22 \<notin> set key"
        and cs: "cs = pre @ ''href=\"'' @ key @ CHR 0x22 # post"
        and least: "\<And>pre' key' post'. key' \<noteq> [] \<Longrightarrow> CHR 0x22 \<notin> set key' \<Longrightarrow>
             cs = pre' @ ''href=\"'' @ key' @ CHR 0x22 # post' \<Longrightarrow> length pre \<le> length pre'"
      by blast
    have "length (c # pre) \<le> length pre'"
      if k: "key' \<noteq> []" "CHR 0x22 \<notin> set key'"
        and d: "c # cs = pre' @ ''href=\"'' @ key' @ CHR 0x22 # post'" for pre' key' post'
    proof (cases pre')
      case Nil
      then have "match_href_here (c # cs) = Some key'"
        using k d by (simp only: match_href_here_Some) auto
      then show ?thesis
        using None by simp
    next
      case (Cons a p)
      then have "cs = p @ ''href=\"'' @ key' @ CHR 0x22 # post'"
        using d by simp
      from least [OF k this] show ?thesis
        by (simp add: Cons)
    qed
    moreover have "c # cs = (c # pre) @ ''href=\"'' @ key @ CHR 0x22 # post"
      by (simp add: cs)
    ultimately show ?thesis
      using ne nq by blast
  qed
qed

lemma exec_href_None:
  "exec_href l = None \<Longrightarrow>
     \<not> (\<exists>pre key post. key \<noteq> [] \<and> CHR 0x22 \<notin> set key \<and>
           l = pre @ ''href=\"'' @ key @ CHR 0x22 # post)"
proof (induction l)
  case Nil
  show ?case by simp
next
  case (Cons c cs)
  have here: "match_href_here (c # cs) = None" and later: "exec_href cs = None"
    using Cons.prems by (auto split: option.splits)
  note ih = Cons.IH [OF later]
  show ?case
  proof
    assume "\<exists>pre key post. key \<noteq> [] \<and> CHR 0x22 \<notin> set key \<and>
        c # cs = pre @ ''href=\"'' @ key @ CHR 0x22 # post"
    then obtain pre key post where k: "key \<noteq> []" "CHR 0x22 \<notin> set key"
      and d: "c # cs = pre @ ''href=\"'' @ key @ CHR 0x22 # post"
      by blast
    show False
    proof (cases pre)
      case Nil
      then have "match_href_here (c # cs) = Some key"
        using k d by (simp only: match_href_here_Some) auto
      then show False
        using here by simp
    next
      case (Cons a p)
      then have "cs = p @ ''href=\"'' @ key @ CHR 0x22 # post"
        using d by simp
      then show False
        using ih k by blast
    qed
  qed
qed

lemmas parser_defs = parseListing_def match_href_here_def

text \<open>
  C6. The parsing step of \<^verbatim>\<open>listObjects\<close>, for every body. The lines are the pieces
  of the body between line feeds (joined by line feeds they give the body back, and none
  holds a line feed). The result is, line by line and in that order, the key of each
  line that has one, so appending a line appends its keys and nothing is deduplicated.
  The key of a line is the value of its leftmost \<^verbatim>\<open>href="..."\<close> token with a non-empty
  value free of double quotes; a line has no key exactly when it has no such token.
\<close>

theorem C6_listing_keys_in_line_order:
  "join_lines (split_lines body) = body \<and>
   (\<forall>l\<in>set (split_lines body). CHR 0x0A \<notin> set l) \<and>
   parseListing body =
     concat (map (\<lambda>l. case exec_href l of None \<Rightarrow> [] | Some key \<Rightarrow> [key]) (split_lines body)) \<and>
   parseListing (a @ CHR 0x0A # b) = parseListing a @ parseListing b \<and>
   (\<forall>l key. exec_href l = Some key \<longrightarrow>
      key \<noteq> [] \<and> CHR 0x22 \<notin> set key \<and>
      (\<exists>pre post. l = pre @ ''href=\"'' @ key @ CHR 0x22 # post \<and>
         (\<forall>pre' key' post'. key' \<noteq> [] \<and> CHR 0x22 \<notin> set key' \<and>
              l = pre' @ ''href=\"'' @ key' @ CHR 0x22 # post' \<longrightarrow> length pre \<le> length pre'))) \<and>
   (\<forall>l. exec_href l = None \<longrightarrow>
      \<not> (\<exists>pre key post. key \<noteq> [] \<and> CHR 0x22 \<notin> set key \<and>
            l = pre @ ''href=\"'' @ key @ CHR 0x22 # post))"
proof (intro conjI ballI allI impI)
  show "join_lines (split_lines body) = body"
    by (rule join_split_lines)
next
  fix l
  assume "l \<in> set (split_lines body)"
  then show "CHR 0x0A \<notin> set l"
    by (rule split_lines_no_LF)
next
  show "parseListing body =
      concat (map (\<lambda>l. case exec_href l of None \<Rightarrow> [] | Some key \<Rightarrow> [key]) (split_lines body))"
    by (rule parseListing_lines)
next
  show "parseListing (a @ CHR 0x0A # b) = parseListing a @ parseListing b"
    by (rule parseListing_append)
next
  fix l key
  assume e: "exec_href l = Some key"
  from exec_href_Some [OF e] show "key \<noteq> []" by simp
  from exec_href_Some [OF e] show "CHR 0x22 \<notin> set key" by simp
  from exec_href_Some [OF e]
  show "\<exists>pre post. l = pre @ ''href=\"'' @ key @ CHR 0x22 # post \<and>
         (\<forall>pre' key' post'. key' \<noteq> [] \<and> CHR 0x22 \<notin> set key' \<and>
              l = pre' @ ''href=\"'' @ key' @ CHR 0x22 # post' \<longrightarrow> length pre \<le> length pre')"
    by simp
next
  fix l
  assume "exec_href l = None"
  then show "\<not> (\<exists>pre key post. key \<noteq> [] \<and> CHR 0x22 \<notin> set key \<and>
            l = pre @ ''href=\"'' @ key @ CHR 0x22 # post)"
    by (rule exec_href_None)
qed

theorem C6_witness:
  "parseListing example_listing = [''1234'', ''5678''] \<and>
   split_lines example_listing =
     [''<a href=\"1234\">1234</a>'', ''no link here'', ''<a href=\"5678\">5678</a>''] \<and>
   exec_href ''<a href=\"1234\">1234</a>'' = Some ''1234'' \<and>
   exec_href ''no link here'' = None \<and>
   parseListing (''<a href=\"7\">7</a>'' @ CHR 0x0A # ''<a href=\"7\">7</a>'') = [''7'', ''7'']"
  using C6_listing_keys_in_line_order [of example_listing "''<a href=\"7\">7</a>''"
      "''<a href=\"7\">7</a>''"]
  by (simp add: example_defs parser_defs)

text \<open>
  C5. \<^verbatim>\<open>listObjects\<close> issues one GET for the collection. When the server answers with
  status 404 the result is the empty sequence; when it answers with any other status
  outside 200 to 299 the call fails with an error whose message is the text of the
  response; when it answers with a status from 200 to 299 the result is the parsed
  listing of the response's text.
\<close>

theorem C5_listObjects_statuses:
  "requests (snd (listObjects env this coll w)) =
     requests w @ [\<lparr>req_method = ''GET'', req_url = url this @ ''/'' @ coll, req_body = None\<rparr>] \<and>
   (\<forall>response.
      remote env (requests w)
        \<lparr>req_method = ''GET'', req_url = url this @ ''/'' @ coll, req_body = None\<rparr> = Inr response \<longrightarrow>
      (resp_status response = 404 \<longrightarrow> fst (listObjects env this coll w) = Inr []) \<and>
      (resp_status response \<noteq> 404 \<and> \<not> resp_ok response \<longrightarrow>
         (\<forall>t. resp_text response = Inr t \<longrightarrow>
            fst (listObjects env this coll w) = Inl (Error t))) \<and>
      (resp_ok response \<longrightarrow>
         (\<forall>body. resp_text response = Inr body \<longrightarrow>
            fst (listObjects env this coll w) = Inr (parseListing body))))"
proof (intro conjI allI impI)
  show "requests (snd (listObjects env this coll w)) =
     requests w @ [\<lparr>req_method = ''GET'', req_url = url this @ ''/'' @ coll, req_body = None\<rparr>]"
    by (simp add: listObjects_def fetch_def split: sum.splits)
next
  fix response
  assume r: "remote env (requests w)
        \<lparr>req_method = ''GET'', req_url = url this @ ''/'' @ coll, req_body = None\<rparr> = Inr response"
  {
    assume "resp_status response = 404"
    then show "fst (listObjects env this coll w) = Inr []"
      using r by (simp add: listObjects_def fetch_def)
  next
    fix t
    assume "resp_status response \<noteq> 404 \<and> \<not> resp_ok response" and "resp_text response = Inr t"
    then show "fst (listObjects env this coll w) = Inl (Error t)"
      using r by (simp add: listObjects_def fetch_def)
  next
    fix body
    assume ok: "resp_ok response" and "resp_text response = Inr body"
    moreover have "resp_status response \<noteq> 404"
      using ok by (auto simp: resp_ok_def)
    ultimately show "fst (listObjects env this coll w) = Inr (parseListing body)"
      using r by (simp add: listObjects_def fetch_def)
  }
qed

theorem C5_witness:
  "fst (listObjects (env_answering 404 ''Not Found'') example_backend ''change-sets'' example_world) =
     Inr [] \<and>
   fst (listObjects (env_answering 500 ''Internal Server Error'') example_backend ''change-sets''
          example_world) = Inl (Error ''Internal Server Error'') \<and>
   fst (listObjects (env_answering 200 example_listing) example_backend ''change-sets''
          example_world) = Inr [''1234'', ''5678''] \<and>
   requests (snd (listObjects (env_answering 200 example_listing) example_backend ''change-sets''
          example_world)) =
     [\<lparr>req_method = ''GET'', req_url = ''http://backup/change-sets'', req_body = None\<rparr>]"
  using C5_listObjects_statuses [of "env_answering 404 ''Not Found''" example_backend
      "''change-sets''" example_world]
    C5_listObjects_statuses [of "env_answering 500 ''Internal Server Error''" example_backend
      "''change-sets''" example_world]
    C5_listObjects_statuses [of "env_answering 200 example_listing" example_backend
      "''change-sets''" example_world]
  by (simp add: example_defs parser_defs resp_ok_def listObjects_def fetch_def)

subsection \<open>One backup cycle\<close>

lemma separate_code:
  "separateDataFromImageChanges env changes w =
     ((changes, snd (fst (separateDataFromImageChanges env changes w))),
      snd (separateDataFromImageChanges env changes w))"
  by (simp add: separateDataFromImageChanges_def split: prod.splits)

lemma backupChanges_unfold:
  "backupChanges env this changes version storeBlobs w =
     (let images = snd (fst (separateDataFromImageChanges env changes w));
          w1 = snd (separateDataFromImageChanges env changes w);
          first = writeToPath env this (''change-sets/'' @ Number_toString (now w))
                    (changes_body env version (heap w1) changes) w1
      in case fst first of
           Inl e \<Rightarrow> (Inl e, snd first)
         | Inr u \<Rightarrow>
             if storeBlobs \<and> images \<noteq> [] then
               writeToPath env this (''images/'' @ Number_toString (now w))
                 (images_body env version images) (snd first)
             else (Inr (), snd first))"
proof -
  obtain imgs w1 where sep: "separateDataFromImageChanges env changes w = ((changes, imgs), w1)"
    using separate_code [of env changes w] by blast
  have "now w1 = now w"
    using separate_now [of env changes w] by (simp add: sep)
  then show ?thesis
    by (cases "writeToPath env this (''change-sets/'' @ Number_toString (now w))
                 (changes_body env version (heap w1) changes) w1")
      (auto simp add: backupChanges_def sep Let_def shouldWriteImages_def split: sum.splits)
qed

lemmas backend_defs =
  backupChanges_def storeObject_def writeToPath_def fetch_def shouldWriteImages_def
  changes_body_def images_body_def Number_toString_def digits_of.simps digit_char_def

text \<open>All the requests of one call of \<^verbatim>\<open>backupChanges\<close>, in order.\<close>

lemma backupChanges_requests:
  "(let images = snd (fst (separateDataFromImageChanges env changes w));
        w1 = snd (separateDataFromImageChanges env changes w);
        t = Number_toString (now w);
        put_changes =
          \<lparr>req_method = ''PUT'', req_url = url this @ ''/'' @ ''change-sets/'' @ t,
           req_body = Some (changes_body env version (heap w1) changes)\<rparr>;
        put_images =
          \<lparr>req_method = ''PUT'', req_url = url this @ ''/'' @ ''images/'' @ t,
           req_body = Some (images_body env version images)\<rparr>
    in requests (snd (backupChanges env this changes version storeBlobs w)) =
         requests w @ put_changes #
           (if \<not> isl (remote env (requests w) put_changes) \<and> storeBlobs \<and> images \<noteq> []
            then [put_images] else []))"
  by (auto simp add: backupChanges_unfold Let_def writeToPath_def fetch_def separate_requests
      split: sum.splits)

text \<open>
  C2, as the code has it. Every call of \<^verbatim>\<open>backupChanges\<close> issues a PUT of the version and
  the classified changes to \<^verbatim>\<open>change-sets/{t}\<close>, where \<open>t\<close> is the clock's value in decimal
  digits, and after it at most one more request: a PUT of the version and the images to
  \<^verbatim>\<open>images/{t}\<close>, with the same \<open>t\<close>. The second request is issued only if the first
  \<^verbatim>\<open>fetch\<close> did not reject, \<^verbatim>\<open>storeBlobs\<close> is true and the images are not empty, and it is
  issued whenever the first write was answered with a success status, \<^verbatim>\<open>storeBlobs\<close> is
  true and the images are not empty.
\<close>

theorem C2_backupChanges_writes:
  "(let images = snd (fst (separateDataFromImageChanges env changes w));
        w1 = snd (separateDataFromImageChanges env changes w);
        t = Number_toString (now w);
        put_changes =
          \<lparr>req_method = ''PUT'', req_url = url this @ ''/'' @ ''change-sets/'' @ t,
           req_body = Some (changes_body env version (heap w1) changes)\<rparr>;
        put_images =
          \<lparr>req_method = ''PUT'', req_url = url this @ ''/'' @ ''images/'' @ t,
           req_body = Some (images_body env version images)\<rparr>;
        issued = requests (snd (backupChanges env this changes version storeBlobs w))
    in (issued = requests w @ [put_changes] \<or>
        issued = requests w @ [put_changes, put_images]) \<and>
       (issued = requests w @ [put_changes, put_images] \<longrightarrow>
          \<not> isl (remote env (requests w) put_changes) \<and> storeBlobs \<and> images \<noteq> []) \<and>
       ((\<exists>response. remote env (requests w) put_changes = Inr response \<and> resp_ok response) \<and>
          storeBlobs \<and> images \<noteq> [] \<longrightarrow>
        issued = requests w @ [put_changes, put_images]))"
  using backupChanges_requests [of env changes w this version storeBlobs]
  by (auto simp add: Let_def)

theorem C2_witness:
  "map req_url
     (requests (snd (backupChanges example_env example_backend
        [page_change, favIcon_change] 1 True example_world))) =
     [''http://backup/change-sets/1541234567890'', ''http://backup/images/1541234567890''] \<and>
   map req_url
     (requests (snd (backupChanges example_env example_backend
        [page_change, favIcon_change] 1 False example_world))) =
     [''http://backup/change-sets/1541234567890''] \<and>
   map req_url
     (requests (snd (backupChanges example_env example_backend
        [favIcon_change] 1 True example_world))) =
     [''http://backup/change-sets/1541234567890'']"
  using C2_backupChanges_writes [of example_env "[page_change, favIcon_change]" example_world
      example_backend 1 True]
    C2_backupChanges_writes [of example_env "[page_change, favIcon_change]" example_world
      example_backend 1 False]
    C2_backupChanges_writes [of example_env "[favIcon_change]" example_world
      example_backend 1 True]
  by (simp add: example_defs classifier_defs backend_defs resp_ok_def)

text \<open>
  C2 as stated fails when the network is down: \<^verbatim>\<open>storeBlobs\<close> is true and an image was
  extracted, yet the rejected first write ends the call and nothing is sent to
  \<^verbatim>\<open>images/{t}\<close>.
\<close>

theorem C2_counterexample:
  "shouldWriteImages
     (snd (fst (separateDataFromImageChanges env_offline [page_change] example_world))) True \<and>
   fst (backupChanges env_offline example_backend [page_change] 1 True example_world) =
     Inl (Error ''Failed to fetch'') \<and>
   map req_url
     (requests (snd (backupChanges env_offline example_backend [page_change] 1 True example_world))) =
     [''http://backup/change-sets/1541234567890'']"
  by (simp add: example_defs classifier_defs backend_defs)

text \<open>
  C3 at a server that answers every PUT with status 500: \<^verbatim>\<open>_writeToPath\<close> does not look
  at the response, so \<^verbatim>\<open>storeObject\<close> and \<^verbatim>\<open>backupChanges\<close> both return normally, and
  \<^verbatim>\<open>backupChanges\<close> goes on to write the images after the failed write of the changes.
\<close>

theorem C3_non_success_response_is_no_error:
  "fst (storeObject (env_answering 500 ''Internal Server Error'') example_backend
          \<lparr>bo_collection = ''pages'', bo_pk = ''a.com'', bo_object = JNull\<rparr> example_world) =
     Inr () \<and>
   fst (backupChanges (env_answering 500 ''Internal Server Error'') example_backend
          [page_change] 1 True example_world) = Inr () \<and>
   map req_url
     (requests (snd (backupChanges (env_answering 500 ''Internal Server Error'') example_backend
          [page_change] 1 True example_world))) =
     [''http://backup/change-sets/1541234567890'', ''http://backup/images/1541234567890'']"
  by (simp add: example_defs classifier_defs backend_defs)

text \<open>
  The part of the failure policy that the code keeps: a \<^verbatim>\<open>fetch\<close> that rejects makes
  \<^verbatim>\<open>storeObject\<close> fail with the same error, and a rejected write of the changes makes
  \<^verbatim>\<open>backupChanges\<close> fail with the same error after that one request, with no write of the
  images.
\<close>

theorem rejected_fetch_surfaces_and_aborts:
  "(\<forall>e. remote env (requests w)
          \<lparr>req_method = ''PUT'',
           req_url = url this @ ''/'' @ bo_collection backupObject @ ''/'' @
                     encodeURIComponent env (encodeURIComponent env (bo_pk backupObject)),
           req_body = Some (JSON_stringify env (bo_object backupObject) 0)\<rparr> = Inl e \<longrightarrow>
        fst (storeObject env this backupObject w) = Inl e) \<and>
   (let w1 = snd (separateDataFromImageChanges env changes w);
        put_changes =
          \<lparr>req_method = ''PUT'',
           req_url = url this @ ''/'' @ ''change-sets/'' @ Number_toString (now w),
           req_body = Some (changes_body env version (heap w1) changes)\<rparr>
    in \<forall>e. remote env (requests w) put_changes = Inl e \<longrightarrow>
         fst (backupChanges env this changes version storeBlobs w) = Inl e \<and>
         requests (snd (backupChanges env this changes version storeBlobs w)) =
           requests w @ [put_changes])"
proof (intro conjI)
  show "\<forall>e. remote env (requests w)
          \<lparr>req_method = ''PUT'',
           req_url = url this @ ''/'' @ bo_collection backupObject @ ''/'' @
                     encodeURIComponent env (encodeURIComponent env (bo_pk backupObject)),
           req_body = Some (JSON_stringify env (bo_object backupObject) 0)\<rparr> = Inl e \<longrightarrow>
        fst (storeObject env this backupObject w) = Inl e"
    by (simp add: storeObject_def writeToPath_result)
next
  show "(let w1 = snd (separateDataFromImageChanges env changes w);
        put_changes =
          \<lparr>req_method = ''PUT'',
           req_url = url this @ ''/'' @ ''change-sets/'' @ Number_toString (now w),
           req_body = Some (changes_body env version (heap w1) changes)\<rparr>
    in \<forall>e. remote env (requests w) put_changes = Inl e \<longrightarrow>
         fst (backupChanges env this changes version storeBlobs w) = Inl e \<and>
         requests (snd (backupChanges env this changes version storeBlobs w)) =
           requests w @ [put_changes])"
    by (simp add: backupChanges_unfold Let_def writeToPath_result writeToPath_requests
        separate_requests)
qed

theorem rejected_fetch_witness:
  "fst (storeObject env_offline example_backend
          \<lparr>bo_collection = ''pages'', bo_pk = ''a.com'', bo_object = JNull\<rparr> example_world) =
     Inl (Error ''Failed to fetch'') \<and>
   fst (backupChanges env_offline example_backend [page_change] 1 True example_world) =
     Inl (Error ''Failed to fetch'') \<and>
   length (requests (snd (backupChanges env_offline example_backend [page_change] 1 True
                            example_world))) = 1"
  using rejected_fetch_surfaces_and_aborts [of env_offline example_world example_backend
      "\<lparr>bo_collection = ''pages'', bo_pk = ''a.com'', bo_object = JNull\<rparr>" "[page_change]" 1 True]
  by (simp add: example_defs classifier_defs backend_defs)

end
